theory Spec2Isabelle
  imports Main
begin

section \<open>The Package value object of bropkg/package.py\<close>

text \<open>
  Python strings are modelled as \<^typ>\<open>string\<close>: the list of the bytes of the UTF-8
  encoding of the text. The operations used by the class (equality, concatenation,
  emptiness, splitting at the ASCII character \<open>/\<close> and the ordering \<open><\<close>) give the same
  results on the UTF-8 bytes as on the code points. An attribute that is \<open>None\<close> or a
  string is a \<^typ>\<open>string option\<close>.
\<close>

subsection \<open>Python primitives used by the class\<close>

datatype py_error = IndexError

text \<open>Indexing a list, \<open>xs[i]\<close>: a negative index counts from the end, and an index
  outside the list raises \<open>IndexError\<close>.\<close>

definition py_index :: "'a list \<Rightarrow> int \<Rightarrow> py_error + 'a" where
  "py_index xs i =
     (if 0 \<le> i \<and> i < int (length xs) then Inr (xs ! nat i)
      else if i < 0 \<and> - int (length xs) \<le> i then Inr (xs ! nat (int (length xs) + i))
      else Inl IndexError)"

text \<open>\<open>s.split('/')\<close>: the text is scanned from the left, \<open>w\<close> is the segment read so
  far; every \<open>/\<close> closes a segment, and the end of the text closes the last one. The
  result always holds at least one segment.\<close>

fun split_from :: "string \<Rightarrow> string \<Rightarrow> string list" where
  "split_from w [] = [w]"
| "split_from w (c # cs) =
     (if c = CHR ''/'' then w # split_from [] cs else split_from (w @ [c]) cs)"

definition str_split :: "string \<Rightarrow> string list" where
  "str_split s = split_from [] s"

text \<open>Truth value of an attribute in \<open>if self.source:\<close>: \<open>None\<close> and the empty string
  are false, every other string is true.\<close>

fun truthy :: "string option \<Rightarrow> bool" where
  "truthy None = False"
| "truthy (Some s) = (s \<noteq> [])"

text \<open>\<open>'{}'.format(x)\<close> of an attribute that passed the truth test is the string itself;
  of \<open>None\<close> it would be the text \<open>None\<close>.\<close>

fun format_arg :: "string option \<Rightarrow> string" where
  "format_arg None = ''None''"
| "format_arg (Some s) = s"

text \<open>\<open>a < b\<close> on strings: the first position where the two differ decides, by the
  numeric value of the characters; a proper prefix is smaller.\<close>

fun str_lt :: "string \<Rightarrow> string \<Rightarrow> bool" where
  "str_lt [] [] = False"
| "str_lt [] (y # ys) = True"
| "str_lt (x # xs) [] = False"
| "str_lt (x # xs) (y # ys) =
     (if x = y then str_lt xs ys else (of_char x :: nat) < of_char y)"

subsection \<open>The class\<close>

record Package =
  git_url :: string
  name :: string
  source :: "string option"
  module_dir :: "string option"

text \<open>\<open>__init__\<close>: the name is \<open>git_url.split('/')[-1]\<close>.\<close>

definition init :: "string \<Rightarrow> string option \<Rightarrow> string option \<Rightarrow> py_error + Package" where
  "init url src mdir =
     (case py_index (str_split url) (- 1) of
        Inl e \<Rightarrow> Inl e
      | Inr n \<Rightarrow> Inr \<lparr>git_url = url, name = n, source = src, module_dir = mdir\<rparr>)"

text \<open>\<open>__str__\<close>: the canonical identity.\<close>

definition str :: "Package \<Rightarrow> string" where
  "str self =
     (if truthy (source self) then
        (if truthy (module_dir self) then
           format_arg (source self) @ ''/'' @ format_arg (module_dir self) @ ''/'' @ name self
         else format_arg (source self) @ ''/'' @ name self)
      else git_url self)"

text \<open>\<open>__repr__\<close>.\<close>

definition repr :: "Package \<Rightarrow> string" where
  "repr self = git_url self"

text \<open>\<open>__lt__\<close>.\<close>

definition lt :: "Package \<Rightarrow> Package \<Rightarrow> bool" where
  "lt self other = str_lt (str self) (str other)"

text \<open>The loop of \<open>matches_path\<close> over \<open>reversed(list(enumerate(path_parts)))\<close>: the
  third argument is the rest of that reversed enumeration.\<close>

fun match_loop :: "string list \<Rightarrow> string list \<Rightarrow> (nat \<times> string) list \<Rightarrow> py_error + bool" where
  "match_loop path_parts pkg_path_parts [] = Inr True"
| "match_loop path_parts pkg_path_parts ((i, part) # rest) =
     (let ri = int i - int (length path_parts)
      in case py_index pkg_path_parts ri of
           Inl e \<Rightarrow> Inl e
         | Inr x \<Rightarrow>
             if part \<noteq> x then Inr False
             else match_loop path_parts pkg_path_parts rest)"

text \<open>\<open>matches_path\<close>. In the branch without a source, \<open>and\<close> reads \<open>path_parts[-1]\<close>
  only when the length test has passed.\<close>

definition matches_path :: "Package \<Rightarrow> string \<Rightarrow> py_error + bool" where
  "matches_path self path =
     (let path_parts = str_split path in
      if truthy (source self) then
        (let pkg_path = str self;
             pkg_path_parts = str_split pkg_path
         in match_loop path_parts pkg_path_parts (rev (enumerate 0 path_parts)))
      else
        (if length path_parts = 1 then
           (case py_index path_parts (- 1) of
              Inl e \<Rightarrow> Inl e
            | Inr x \<Rightarrow> if x = name self then Inr True else Inr (path = git_url self))
         else Inr (path = git_url self)))"

subsection \<open>Notions of the specification\<close>

text \<open>\<open>'/'.join(segs)\<close>, the inverse of splitting, used by the specification to build a
  path from segments of the identity.\<close>

fun str_join :: "string list \<Rightarrow> string" where
  "str_join [] = []"
| "str_join [x] = x"
| "str_join (x # y # ys) = x @ ''/'' @ str_join (y # ys)"

text \<open>The comparison of the loop of \<open>matches_path\<close>, read on the two segment lists
  reversed: the last segments first, in lockstep, until the path is used up. It is the
  reference the loop is proved equal to.\<close>

fun walk :: "string list \<Rightarrow> string list \<Rightarrow> py_error + bool" where
  "walk [] ys = Inr True"
| "walk (x # xs) [] = Inl IndexError"
| "walk (x # xs) (y # ys) = (if x \<noteq> y then Inr False else walk xs ys)"

subsection \<open>The packages of the specification's example scenarios\<close>

abbreviation (input) repo_url :: string where
  "repo_url \<equiv> ''https://github.com/org/repo''"

abbreviation (input) plain_pkg :: Package where
  "plain_pkg \<equiv> \<lparr>git_url = repo_url, name = ''repo'', source = None, module_dir = None\<rparr>"

abbreviation (input) registry_pkg :: Package where
  "registry_pkg \<equiv>
     \<lparr>git_url = repo_url, name = ''repo'', source = Some ''registry'', module_dir = None\<rparr>"

abbreviation (input) sub_pkg :: Package where
  "sub_pkg \<equiv>
     \<lparr>git_url = repo_url, name = ''repo'', source = Some ''registry'',
      module_dir = Some ''sub''\<rparr>"

section \<open>Auxiliary facts\<close>

subsection \<open>Indexing and splitting\<close>

lemma py_index_last: "xs \<noteq> [] \<Longrightarrow> py_index xs (- 1) = Inr (last xs)"
  by (cases xs rule: rev_cases) (simp_all add: py_index_def nth_append)

lemma py_index_from_end:
  "py_index xs (- 1 - int k) = (if k < length xs then Inr (rev xs ! k) else Inl IndexError)"
  by (auto simp: py_index_def rev_nth intro!: arg_cong [where f = "nth xs"])

lemma split_from_ne: "split_from w s \<noteq> []"
  by (induction s arbitrary: w) auto

lemma split_from_noslash: "CHR ''/'' \<notin> set s \<Longrightarrow> split_from w s = [w @ s]"
  by (induction s arbitrary: w) auto

lemma split_from_append:
  "split_from w (a @ CHR ''/'' # b) = split_from w a @ split_from [] b"
  by (induction a arbitrary: w) auto

lemma split_from_segments:
  "CHR ''/'' \<notin> set w \<Longrightarrow> \<forall>x\<in>set (split_from w s). CHR ''/'' \<notin> set x"
proof (induction s arbitrary: w)
  case Nil
  then show ?case by simp
next
  case (Cons c cs)
  show ?case
  proof (cases "c = CHR ''/''")
    case True
    with Cons.prems Cons.IH [of "[]"] show ?thesis by simp
  next
    case False
    with Cons.prems Cons.IH [of "w @ [c]"] show ?thesis by simp
  qed
qed

lemma split_from_single:
  "length (split_from w s) = 1 \<Longrightarrow> split_from w s = [w @ s]"
proof (induction s arbitrary: w)
  case Nil
  show ?case by simp
next
  case (Cons c cs)
  show ?case
  proof (cases "c = CHR ''/''")
    case True
    with Cons.prems show ?thesis by (simp add: split_from_ne)
  next
    case False
    with Cons.prems Cons.IH [of "w @ [c]"] show ?thesis by simp
  qed
qed

lemma last_split_from_empty:
  "last (split_from w s) = [] \<longleftrightarrow> (if s = [] then w = [] else last s = CHR ''/'')"
  by (induction s arbitrary: w) (auto simp: split_from_ne)

lemma split_join:
  "segs \<noteq> [] \<Longrightarrow> \<forall>x\<in>set segs. CHR ''/'' \<notin> set x \<Longrightarrow> str_split (str_join segs) = segs"
  unfolding str_split_def
  by (induction segs rule: str_join.induct)
     (simp_all add: split_from_noslash split_from_append)

lemma match_loop_step:
  "match_loop (a @ x # b) pkg ((length a, part) # rest) =
     (if length b < length pkg then
        (if part \<noteq> rev pkg ! length b then Inr False else match_loop (a @ x # b) pkg rest)
      else Inl IndexError)"
proof -
  have "int (length a) - int (length (a @ x # b)) = - 1 - int (length b)"
    by simp
  then show ?thesis
    by (simp only: match_loop.simps Let_def py_index_from_end) simp
qed

lemma match_loop_walk_gen:
  "match_loop (a @ b) pkg (rev (enumerate 0 a)) = walk (rev a) (drop (length b) (rev pkg))"
proof (induction a arbitrary: b rule: rev_induct)
  case Nil
  show ?case by simp
next
  case (snoc x a)
  have ih: "match_loop (a @ y # b) pkg (rev (enumerate 0 a))
            = walk (rev a) (drop (Suc (length b)) (rev pkg))" for y
    using snoc.IH [of "y # b"] by simp
  show ?case
  proof (cases "length b < length pkg")
    case True
    then have d: "drop (length b) (rev pkg) = rev pkg ! length b # drop (Suc (length b)) (rev pkg)"
      by (simp add: Cons_nth_drop_Suc)
    show ?thesis
      using True by (simp add: enumerate_append_eq match_loop_step ih d del: match_loop.simps)
  next
    case False
    then show ?thesis
      by (simp add: enumerate_append_eq match_loop_step del: match_loop.simps)
  qed
qed

lemma match_loop_walk:
  "match_loop pp pkg (rev (enumerate 0 pp)) = walk (rev pp) (rev pkg)"
  using match_loop_walk_gen [of pp "[]" pkg] by simp

lemma walk_prefix: "walk xs (xs @ ys) = Inr True"
  by (induction xs) auto

lemma walk_longer:
  "length ys < length xs \<Longrightarrow>
   walk xs ys = (if take (length ys) xs = ys then Inl IndexError else Inr False)"
  by (induction xs ys rule: walk.induct) auto

lemma str_lt_lexord: "str_lt xs ys \<longleftrightarrow> (xs, ys) \<in> lexord {(c, d). (of_char c :: nat) < of_char d}"
  by (induction xs ys rule: str_lt.induct) auto

lemma str_split_ne: "str_split s \<noteq> []"
  by (simp add: str_split_def split_from_ne)

lemma str_split_segments: "x \<in> set (str_split s) \<Longrightarrow> CHR ''/'' \<notin> set x"
  using split_from_segments [of "[]" s] by (simp add: str_split_def)

lemma str_split_noslash: "CHR ''/'' \<notin> set s \<Longrightarrow> str_split s = [s]"
  by (simp add: str_split_def split_from_noslash)

lemma str_split_single: "length (str_split s) = 1 \<Longrightarrow> str_split s = [s]"
  using split_from_single [of "[]" s] by (simp add: str_split_def)

lemma last_str_split_noslash: "CHR ''/'' \<notin> set (last (str_split s))"
  using str_split_segments [of "last (str_split s)" s] str_split_ne [of s] by simp

lemma last_str_split_append:
  "last (str_split (a @ CHR ''/'' # b)) = last (str_split b)"
  by (simp add: str_split_def split_from_append split_from_ne)

subsection \<open>The constructor never raises\<close>

lemma init_returns:
  "init u s m = Inr \<lparr>git_url = u, name = last (str_split u), source = s, module_dir = m\<rparr>"
  by (simp add: init_def py_index_last str_split_ne)

lemma init_fields:
  assumes "init u s m = Inr p"
  shows "git_url p = u" and "name p = last (str_split u)" and "source p = s"
    and "module_dir p = m"
  using assms by (auto simp: init_returns)

subsection \<open>The loop of \<open>matches_path\<close>\<close>

lemma last_str_split_str:
  assumes "CHR ''/'' \<notin> set (name p)" and "truthy (source p)"
  shows "last (str_split (str p)) = name p"
proof -
  have "last (str_split (x @ ''/'' @ name p)) = name p" for x
    using assms(1) by (simp add: last_str_split_append str_split_noslash)
  from this [of "format_arg (source p)"]
       this [of "format_arg (source p) @ ''/'' @ format_arg (module_dir p)"]
  show ?thesis using assms(2) by (simp add: str_def)
qed

lemma matches_path_source:
  "truthy (source p) \<Longrightarrow>
   matches_path p path = walk (rev (str_split path)) (rev (str_split (str p)))"
  by (simp add: matches_path_def Let_def match_loop_walk)

lemma matches_path_no_source:
  assumes "\<not> truthy (source p)" and "CHR ''/'' \<notin> set (name p)"
  shows "matches_path p path = Inr (path = name p \<or> path = git_url p)"
proof (cases "length (str_split path) = 1")
  case True
  then have "str_split path = [path]" by (rule str_split_single)
  then show ?thesis
    using assms(1) by (simp add: matches_path_def Let_def py_index_last)
next
  case False
  have "path \<noteq> name p"
    using False assms(2) by (auto simp: str_split_noslash)
  then show ?thesis
    using False assms(1) by (simp add: matches_path_def Let_def)
qed

lemma walk_last_differs:
  "xs \<noteq> [] \<Longrightarrow> ys \<noteq> [] \<Longrightarrow> last xs \<noteq> last ys \<Longrightarrow> walk (rev xs) (rev ys) = Inr False"
  by (cases xs rule: rev_cases; cases ys rule: rev_cases) auto

lemma walk_suffix: "walk (rev (drop d ys)) (rev ys) = Inr True"
proof -
  have "rev ys = rev (drop d ys) @ rev (take d ys)"
    by (metis append_take_drop_id rev_append)
  then show ?thesis by (metis walk_prefix)
qed

lemma matches_path_longer_path:
  assumes "truthy (source p)" and "length (str_split (str p)) < length (str_split path)"
  shows "matches_path p path =
           (if drop (length (str_split path) - length (str_split (str p))) (str_split path)
               = str_split (str p)
            then Inl IndexError else Inr False)"
  using assms by (simp add: matches_path_source walk_longer take_rev)

lemma example_inits:
  "init repo_url None None = Inr plain_pkg"
  "init repo_url (Some ''registry'') None = Inr registry_pkg"
  "init repo_url (Some ''registry'') (Some ''sub'') = Inr sub_pkg"
  by (simp_all add: init_def str_split_def py_index_def)

lemma example_identities:
  "str plain_pkg = repo_url"
  "str_split (str registry_pkg) = [''registry'', ''repo'']"
  "str_split (str sub_pkg) = [''registry'', ''sub'', ''repo'']"
  by (simp_all add: str_def str_split_def)

section \<open>The claims\<close>

subsection \<open>C1: a path longer than the identity\<close>

text \<open>
  C1 says that \<open>matches_path\<close> answers false, without a runtime fault, for every path
  with more segments than the identity of a package with a source. The code has no guard
  on the length: when the identity's segments all agree with the last segments of the
  path, the loop goes on and reads \<open>pkg_path_parts[ri]\<close> before the start of the list
  (\<open>matches_path_longer_path\<close> is the general statement). For the package
  \<open>Package('https://github.com/org/repo', source='registry')\<close>, whose identity
  \<open>registry/repo\<close> has two segments, the path \<open>x/registry/repo\<close> has three and the call
  raises \<open>IndexError\<close>.
\<close>

theorem matches_path_longer_path_index_error:
  "init repo_url (Some ''registry'') None = Inr registry_pkg \<and>
   str_split (str registry_pkg) = [''registry'', ''repo''] \<and>
   str_split ''x/registry/repo'' = [''x'', ''registry'', ''repo''] \<and>
   matches_path registry_pkg ''x/registry/repo'' = Inl IndexError"
  by (simp add: init_def str_split_def py_index_def matches_path_def str_def)

subsection \<open>C2: every suffix of the identity matches\<close>

text \<open>
  C2, as amended: for every package whose source is a non-empty string, with identity
  segments \<open>s0..sn\<close>, and every \<open>k\<close> from \<open>1\<close> to \<open>n + 1\<close>, \<open>matches_path\<close> returns true
  on the last \<open>k\<close> identity segments joined with \<open>/\<close>.
\<close>

theorem matches_path_identity_suffix:
  assumes "init u (Some s) m = Inr p" and "s \<noteq> []"
    and "1 \<le> k" and "k \<le> length (str_split (str p))"
  shows "matches_path p
           (str_join (drop (length (str_split (str p)) - k) (str_split (str p)))) = Inr True"
proof -
  let ?segs = "str_split (str p)"
  let ?d = "length ?segs - k"
  have t: "truthy (source p)"
    using assms(1,2) by (simp add: init_fields)
  have ne: "drop ?d ?segs \<noteq> []"
    using assms(3,4) by simp
  have "\<forall>x\<in>set (drop ?d ?segs). CHR ''/'' \<notin> set x"
    using str_split_segments set_drop_subset by fastforce
  with ne have "str_split (str_join (drop ?d ?segs)) = drop ?d ?segs"
    by (rule split_join)
  then show ?thesis
    using t by (simp add: matches_path_source walk_suffix)
qed

text \<open>The third example scenario: \<open>sub/repo\<close> is the last two segments of
  \<open>registry/sub/repo\<close>.\<close>

theorem matches_path_identity_suffix_witness:
  "init repo_url (Some ''registry'') (Some ''sub'') = Inr sub_pkg \<and>
   ''registry'' \<noteq> [] \<and> (1::nat) \<le> 2 \<and> 2 \<le> length (str_split (str sub_pkg)) \<and>
   str_join (drop (length (str_split (str sub_pkg)) - 2) (str_split (str sub_pkg)))
     = ''sub/repo'' \<and>
   matches_path sub_pkg ''sub/repo'' = Inr True"
proof -
  have "matches_path sub_pkg
          (str_join (drop (length (str_split (str sub_pkg)) - 2) (str_split (str sub_pkg))))
        = Inr True"
    by (rule matches_path_identity_suffix [OF example_inits(3)])
       (simp_all add: example_identities)
  then show ?thesis
    by (simp add: example_inits example_identities)
qed

text \<open>C2 as stated fails when the source is present but empty: the code then takes the
  branch without a source. The identity of \<open>Package('a/b/c', source='')\<close> is \<open>a/b/c\<close>,
  and its last two segments do not match.\<close>

theorem matches_path_suffix_empty_source:
  "init ''a/b/c'' (Some []) None =
     Inr \<lparr>git_url = ''a/b/c'', name = ''c'', source = Some [], module_dir = None\<rparr> \<and>
   str_split (str \<lparr>git_url = ''a/b/c'', name = ''c'', source = Some [], module_dir = None\<rparr>)
     = [''a'', ''b'', ''c''] \<and>
   str_join (drop (3 - 2) [''a'', ''b'', ''c'']) = ''b/c'' \<and>
   matches_path \<lparr>git_url = ''a/b/c'', name = ''c'', source = Some [], module_dir = None\<rparr>
     ''b/c'' = Inr False"
  by (simp add: init_def str_split_def py_index_def matches_path_def str_def)

subsection \<open>C3: the three forms of the identity\<close>

text \<open>
  C3, as amended: the identity is \<open>git_url\<close> when the source is absent, is
  \<open>{source}/{name}\<close> when the source is a non-empty string and the module directory is
  absent, and is \<open>{source}/{module_dir}/{name}\<close> when both are non-empty strings.
\<close>

theorem str_three_forms:
  assumes "init u s m = Inr p"
  shows "(s = None \<longrightarrow> str p = u) \<and>
         (\<forall>x. s = Some x \<and> x \<noteq> [] \<and> m = None \<longrightarrow> str p = x @ ''/'' @ name p) \<and>
         (\<forall>x y. s = Some x \<and> x \<noteq> [] \<and> m = Some y \<and> y \<noteq> [] \<longrightarrow>
            str p = x @ ''/'' @ y @ ''/'' @ name p)"
  using assms by (auto simp: init_returns str_def)

text \<open>The three example scenarios.\<close>

theorem str_three_forms_witness:
  "init repo_url None None = Inr plain_pkg \<and> str plain_pkg = repo_url \<and>
   init repo_url (Some ''registry'') None = Inr registry_pkg \<and>
   str registry_pkg = ''registry/repo'' \<and>
   init repo_url (Some ''registry'') (Some ''sub'') = Inr sub_pkg \<and>
   str sub_pkg = ''registry/sub/repo''"
  using str_three_forms [OF example_inits(1)]
        str_three_forms [OF example_inits(2)]
        str_three_forms [OF example_inits(3)]
  by (simp add: example_inits)

text \<open>C3 as stated fails for a source or a module directory that is present but empty:
  the identity of \<open>Package('a/b', source='')\<close> is \<open>a/b\<close>, not \<open>/b\<close>, and the identity of
  \<open>Package('a/b', source='s', module_dir='')\<close> is \<open>s/b\<close>, not \<open>s//b\<close>.\<close>

theorem str_empty_attribute:
  "init ''a/b'' (Some []) None =
     Inr \<lparr>git_url = ''a/b'', name = ''b'', source = Some [], module_dir = None\<rparr> \<and>
   str \<lparr>git_url = ''a/b'', name = ''b'', source = Some [], module_dir = None\<rparr> = ''a/b'' \<and>
   str \<lparr>git_url = ''a/b'', name = ''b'', source = Some [], module_dir = None\<rparr>
     \<noteq> [] @ ''/'' @ ''b'' \<and>
   init ''a/b'' (Some ''s'') (Some []) =
     Inr \<lparr>git_url = ''a/b'', name = ''b'', source = Some ''s'', module_dir = Some []\<rparr> \<and>
   str \<lparr>git_url = ''a/b'', name = ''b'', source = Some ''s'', module_dir = Some []\<rparr>
     = ''s/b'' \<and>
   str \<lparr>git_url = ''a/b'', name = ''b'', source = Some ''s'', module_dir = Some []\<rparr>
     \<noteq> ''s'' @ ''/'' @ [] @ ''/'' @ ''b''"
  by (simp add: init_def str_split_def py_index_def str_def)

subsection \<open>C4: matching without a source\<close>

text \<open>
  C4: for every package whose source is absent, \<open>matches_path\<close> returns true on the
  name, true on \<open>git_url\<close>, and false on every other path.
\<close>

theorem matches_path_without_source:
  assumes "init u None m = Inr p"
  shows "matches_path p (name p) = Inr True \<and> matches_path p u = Inr True \<and>
         (path \<noteq> name p \<and> path \<noteq> u \<longrightarrow> matches_path p path = Inr False)"
proof -
  have "\<not> truthy (source p)" and "CHR ''/'' \<notin> set (name p)" and "git_url p = u"
    using assms by (simp_all add: init_fields last_str_split_noslash)
  then show ?thesis by (simp add: matches_path_no_source)
qed

text \<open>The first example scenario.\<close>

theorem matches_path_without_source_witness:
  "init repo_url None None = Inr plain_pkg \<and>
   matches_path plain_pkg ''repo'' = Inr True \<and>
   matches_path plain_pkg repo_url = Inr True \<and>
   ''org/repo'' \<noteq> ''repo'' \<and> ''org/repo'' \<noteq> repo_url \<and>
   matches_path plain_pkg ''org/repo'' = Inr False"
  using matches_path_without_source [OF example_inits(1), of "''org/repo''"]
  by (simp add: example_inits)

subsection \<open>C5: the name is the last segment of the URL\<close>

text \<open>
  C5, as amended: construction succeeds for every \<open>git_url\<close> and the name is the final
  segment of \<open>git_url\<close> split at \<open>/\<close>; the name is non-empty exactly when \<open>git_url\<close> is
  non-empty and does not end with \<open>/\<close>.
\<close>

theorem init_name_last_segment:
  "\<exists>p. init u s m = Inr p \<and> name p = last (str_split u) \<and>
       (name p \<noteq> [] \<longleftrightarrow> u \<noteq> [] \<and> last u \<noteq> CHR ''/'')"
  using last_split_from_empty [of "[]" u] by (auto simp: init_returns str_split_def)

text \<open>C5 as stated fails for a URL with a trailing \<open>/\<close>: \<open>a/\<close> is non-empty and splits
  into the two segments \<open>a\<close> and the empty string, and the name of \<open>Package('a/')\<close> is
  empty.\<close>

theorem init_name_trailing_slash:
  "''a/'' \<noteq> [] \<and> str_split ''a/'' = [''a'', []] \<and>
   init ''a/'' None None =
     Inr \<lparr>git_url = ''a/'', name = [], source = None, module_dir = None\<rparr>"
  by (simp add: init_def str_split_def py_index_def)

subsection \<open>C6: a path with another last segment\<close>

text \<open>
  C6: for every package whose source is present and every path whose last segment differs
  from the name, \<open>matches_path\<close> returns false.
\<close>

theorem matches_path_last_segment_differs:
  assumes "init u (Some s) m = Inr p" and "last (str_split path) \<noteq> name p"
  shows "matches_path p path = Inr False"
proof (cases "truthy (source p)")
  case True
  have "CHR ''/'' \<notin> set (name p)"
    using assms(1) by (simp add: init_fields last_str_split_noslash)
  then have "last (str_split (str p)) = name p"
    using True by (rule last_str_split_str)
  with assms(2) show ?thesis
    using True by (simp add: matches_path_source walk_last_differs str_split_ne)
next
  case False
  have n: "name p = last (str_split u)" and g: "git_url p = u"
    using assms(1) by (simp_all add: init_fields)
  have "path \<noteq> name p"
    using assms(2) last_str_split_noslash [of u] n
    by (auto simp: str_split_noslash)
  moreover have "path \<noteq> u"
    using assms(2) n by auto
  ultimately show ?thesis
    using False n g by (simp add: matches_path_no_source last_str_split_noslash)
qed

text \<open>The second example scenario, on the path \<open>registry/other\<close>.\<close>

theorem matches_path_last_segment_differs_witness:
  "init repo_url (Some ''registry'') None = Inr registry_pkg \<and>
   last (str_split ''registry/other'') \<noteq> name registry_pkg \<and>
   matches_path registry_pkg ''registry/other'' = Inr False"
proof -
  have l: "last (str_split ''registry/other'') \<noteq> name registry_pkg"
    by (simp add: str_split_def)
  from matches_path_last_segment_differs [OF example_inits(2) l] l
  show ?thesis by (simp add: example_inits)
qed

subsection \<open>C7: the name with and without a slash in the URL\<close>

text \<open>
  C7: when \<open>git_url\<close> holds no \<open>/\<close> the name is \<open>git_url\<close> itself; when it holds one, the
  name is the text after the last \<open>/\<close>.
\<close>

theorem init_name_after_last_slash:
  assumes "init u s m = Inr p"
  shows "(CHR ''/'' \<notin> set u \<longrightarrow> name p = u) \<and>
         (\<forall>pre suf. u = pre @ ''/'' @ suf \<and> CHR ''/'' \<notin> set suf \<longrightarrow> name p = suf)"
  using assms
  by (auto simp: init_returns str_split_noslash last_str_split_append)

theorem init_name_after_last_slash_witness:
  "init ''repo'' None None =
     Inr \<lparr>git_url = ''repo'', name = ''repo'', source = None, module_dir = None\<rparr> \<and>
   CHR ''/'' \<notin> set ''repo'' \<and>
   init repo_url None None = Inr plain_pkg \<and>
   repo_url = ''https://github.com/org'' @ ''/'' @ ''repo'' \<and>
   name plain_pkg = ''repo''"
proof -
  have i: "init ''repo'' None None =
     Inr \<lparr>git_url = ''repo'', name = ''repo'', source = None, module_dir = None\<rparr>"
    by (simp add: init_def str_split_def py_index_def)
  from init_name_after_last_slash [OF i] init_name_after_last_slash [OF example_inits(1)] i
  show ?thesis by (simp add: example_inits)
qed

subsection \<open>C8: the order of packages\<close>

text \<open>
  C8: for every two packages, \<open>__lt__\<close> holds exactly when the identity of the first is
  below the identity of the second in the lexicographic order by character value.
\<close>

theorem lt_lexord:
  "lt a b \<longleftrightarrow> (str a, str b) \<in> lexord {(c, d). (of_char c :: nat) < of_char d}"
  by (simp only: lt_def str_lt_lexord)

subsection \<open>C9: the module directory without a source\<close>

text \<open>
  C9: two packages with no source that differ only in the module directory have the same
  identity, and \<open>matches_path\<close> gives the same result for both on every path.
\<close>

theorem module_dir_ignored_without_source:
  assumes "init u None m1 = Inr a" and "init u None m2 = Inr b"
  shows "str a = str b \<and> matches_path a path = matches_path b path"
proof -
  have "\<not> truthy (source a)" "\<not> truthy (source b)" "git_url a = u" "git_url b = u"
       "name a = last (str_split u)" "name b = last (str_split u)"
    using assms by (simp_all add: init_fields)
  then show ?thesis
    by (simp add: str_def matches_path_no_source last_str_split_noslash)
qed

theorem module_dir_ignored_without_source_witness:
  "init repo_url None None = Inr plain_pkg \<and>
   init repo_url None (Some ''sub'') =
     Inr \<lparr>git_url = repo_url, name = ''repo'', source = None, module_dir = Some ''sub''\<rparr> \<and>
   str \<lparr>git_url = repo_url, name = ''repo'', source = None, module_dir = Some ''sub''\<rparr>
     = str plain_pkg \<and>
   matches_path \<lparr>git_url = repo_url, name = ''repo'', source = None, module_dir = Some ''sub''\<rparr>
     ''repo'' = matches_path plain_pkg ''repo''"
proof -
  have i: "init repo_url None (Some ''sub'') =
     Inr \<lparr>git_url = repo_url, name = ''repo'', source = None, module_dir = Some ''sub''\<rparr>"
    by (simp add: init_def str_split_def py_index_def)
  from module_dir_ignored_without_source [OF i example_inits(1), of "''repo''"] i
  show ?thesis by (simp add: example_inits)
qed

subsection \<open>C10: empty strings count as absent\<close>

text \<open>
  C10: a package whose source is the empty string has \<open>git_url\<close> as its identity and
  matches exactly its name and its \<open>git_url\<close>; a package with a non-empty source and an
  empty module directory has the identity \<open>{source}/{name}\<close>; in both cases the identity
  and \<open>matches_path\<close> are those of the package built with \<open>None\<close> in place of the empty
  string.
\<close>

theorem empty_string_as_absent:
  assumes "init u (Some []) m = Inr p" and "init u None m = Inr p'"
    and "init v (Some s) (Some []) = Inr q" and "init v (Some s) None = Inr q'"
    and "s \<noteq> []"
  shows "str p = u \<and> matches_path p path = Inr (path = name p \<or> path = u) \<and>
         str q = s @ ''/'' @ name q \<and>
         str p = str p' \<and> matches_path p path = matches_path p' path \<and>
         str q = str q' \<and> matches_path q path = matches_path q' path"
proof -
  have p: "\<not> truthy (source p)" "git_url p = u" "name p = last (str_split u)"
    and p': "\<not> truthy (source p')" "git_url p' = u" "name p' = last (str_split u)"
    using assms(1,2) by (simp_all add: init_fields)
  have q: "truthy (source q)" "truthy (source q')"
    using assms(3,4,5) by (simp_all add: init_fields)
  have sq: "str q = s @ ''/'' @ name q" "str q = str q'"
    using assms(3,4,5) by (auto simp: init_returns str_def)
  show ?thesis
    using p p' q sq
    by (simp add: str_def matches_path_no_source matches_path_source last_str_split_noslash)
qed

theorem empty_string_as_absent_witness:
  "init repo_url (Some []) None =
     Inr \<lparr>git_url = repo_url, name = ''repo'', source = Some [], module_dir = None\<rparr> \<and>
   init repo_url None None = Inr plain_pkg \<and>
   init repo_url (Some ''registry'') (Some []) =
     Inr \<lparr>git_url = repo_url, name = ''repo'', source = Some ''registry'',
          module_dir = Some []\<rparr> \<and>
   init repo_url (Some ''registry'') None = Inr registry_pkg \<and>
   ''registry'' \<noteq> [] \<and>
   str \<lparr>git_url = repo_url, name = ''repo'', source = Some [], module_dir = None\<rparr>
     = repo_url \<and>
   matches_path \<lparr>git_url = repo_url, name = ''repo'', source = Some [], module_dir = None\<rparr>
     ''org/repo'' = Inr False \<and>
   str \<lparr>git_url = repo_url, name = ''repo'', source = Some ''registry'',
        module_dir = Some []\<rparr> = ''registry/repo''"
proof -
  have i: "init repo_url (Some []) None =
     Inr \<lparr>git_url = repo_url, name = ''repo'', source = Some [], module_dir = None\<rparr>"
    and j: "init repo_url (Some ''registry'') (Some []) =
     Inr \<lparr>git_url = repo_url, name = ''repo'', source = Some ''registry'',
          module_dir = Some []\<rparr>"
    by (simp_all add: init_def str_split_def py_index_def)
  have n: "''registry'' \<noteq> []" by simp
  from empty_string_as_absent [OF i example_inits(1) j example_inits(2) n, of "''org/repo''"] i j
  show ?thesis by (simp add: example_inits)
qed

end
